theory Spec2Isabelle
  imports Complex_Main "HOL-Library.Word" "HOL-Library.Signed_Division" "HOL-Library.Multiset"
begin

section \<open>Shared types (types.ts)\<close>

text \<open>
  JavaScript strings are modelled as \<^typ>\<open>string\<close>, numbers that only ever hold integers
  as \<^typ>\<open>int\<close> or \<^typ>\<open>nat\<close>, other numbers as \<^typ>\<open>real\<close>. TypeScript's types are
  erased when the program runs: what \<open>generateQuiz\<close> returns is whatever \<open>JSON.parse\<close>
  produced, cast to \<open>QuizQuestion[]\<close> without a check. So the questions of a quiz are a
  JSON value here, which is an array of question objects when the provider kept to the
  prompt. An object lists its members in the order of the text.
\<close>

datatype json =
    JNull
  | JBool bool
  | JNumber real
  | JString string
  | JArray "json list"
  | JObject "(string \<times> json) list"

definition length_is_zero :: "json \<Rightarrow> bool option" where
  \<comment> \<open>\<open>questions.length === 0\<close>. \<open>None\<close> is the \<open>TypeError\<close> of reading a property of
      \<open>null\<close>; a number or a boolean has no \<open>length\<close>, an object has the one it was given
      (the last, if the text gave several).\<close>
  "length_is_zero v =
     (case v of
        JNull \<Rightarrow> None
      | JArray xs \<Rightarrow> Some (xs = [])
      | JString s \<Rightarrow> Some (s = [])
      | JObject members \<Rightarrow> Some (map_of (rev members) ''length'' = Some (JNumber 0))
      | _ \<Rightarrow> Some False)"

datatype role = User | Assistant

record Message =
  role :: role
  content :: string
  timestamp :: nat

section \<open>Turn recorder (db.ts)\<close>

text \<open>
  The \<open>messages\<close> table is the list of its rows in insertion (rowid) order; a row is the
  session id and the three columns that \<open>getMessages\<close> selects. The \<open>quizzes\<close> table
  likewise. \<open>Date.now()\<close> is an input of every insert.
\<close>

record db =
  messages :: "(string \<times> Message) list"
  quizzes :: "(string \<times> json \<times> nat) list"

definition addMessage :: "db \<Rightarrow> string \<Rightarrow> role \<Rightarrow> string \<Rightarrow> nat \<Rightarrow> db" where
  "addMessage d sid r c now =
     d\<lparr>messages := messages d @ [(sid, \<lparr>role = r, content = c, timestamp = now\<rparr>)]\<rparr>"

definition session_rows :: "db \<Rightarrow> string \<Rightarrow> Message list" where
  \<comment> \<open>\<open>FROM messages WHERE session_id = ?\<close>, in rowid order\<close>
  "session_rows d sid = map snd (filter (\<lambda>row. fst row = sid) (messages d))"

definition order_by_timestamp_desc :: "Message list \<Rightarrow> Message list" where
  \<comment> \<open>\<open>ORDER BY timestamp DESC\<close>. SQL leaves the order of rows with equal timestamps open;
      the sort here is stable, so such rows stay in rowid order, the order in which a scan
      of the table meets them. \<open>order_by_answer\<close> below is the query without this choice.\<close>
  "order_by_timestamp_desc ms = sort_key (\<lambda>m. - int (timestamp m)) ms"

definition getMessages :: "db \<Rightarrow> string \<Rightarrow> nat \<Rightarrow> Message list" where
  "getMessages d sid limit = take limit (order_by_timestamp_desc (session_rows d sid))"

fun order_by_answer :: "Message list \<Rightarrow> nat \<Rightarrow> Message list \<Rightarrow> bool" where
  \<comment> \<open>What SQL promises of \<open>ORDER BY timestamp DESC LIMIT ?\<close> over the rows \<open>ms\<close>, whatever
      the engine does with equal timestamps: each row of the answer has the largest
      timestamp among the rows not yet returned, and the answer stops at the limit or when
      the rows run out.\<close>
  "order_by_answer ms 0 r = (r = [])"
| "order_by_answer ms (Suc n) [] = (ms = [])"
| "order_by_answer ms (Suc n) (x # r) =
     (x \<in> set ms \<and> list_all (\<lambda>y. timestamp y \<le> timestamp x) ms \<and> order_by_answer (remove1 x ms) n r)"

definition getUserMessageCount :: "db \<Rightarrow> string \<Rightarrow> int" where
  "getUserMessageCount d sid =
     int (length (filter (\<lambda>row. fst row = sid \<and> role (snd row) = User) (messages d)))"

definition saveQuiz :: "db \<Rightarrow> string \<Rightarrow> json \<Rightarrow> nat \<Rightarrow> db" where
  "saveQuiz d sid questions now = d\<lparr>quizzes := quizzes d @ [(sid, questions, now)]\<rparr>"

fun append_all :: "db \<Rightarrow> string \<Rightarrow> (role \<times> string \<times> nat) list \<Rightarrow> db" where
  \<comment> \<open>a run of \<open>addMessage\<close> calls for one session: role, content and the clock reading of each\<close>
  "append_all d sid [] = d"
| "append_all d sid ((r, c, now) # rest) = append_all (addMessage d sid r c now) sid rest"

definition as_message :: "role \<times> string \<times> nat \<Rightarrow> Message" where
  "as_message a = (case a of (r, c, now) \<Rightarrow> \<lparr>role = r, content = c, timestamp = now\<rparr>)"

section \<open>Configuration (config.ts)\<close>

definition TRIGGER_EVERY_N_MESSAGES :: int where
  "TRIGGER_EVERY_N_MESSAGES = 5"

definition HISTORY_WINDOW :: nat where
  "HISTORY_WINDOW = 20"

definition PROMPT_HISTORY_LIMIT :: nat where
  "PROMPT_HISTORY_LIMIT = 12"

definition GENERATION_PROMPT :: "string \<Rightarrow> string" where
  \<open>GENERATION_PROMPT conversationText =
     ''Based on this conversation, create 1-2 trivia quiz questions about topics that were discussed.''
     @ [CHR 0x0A] @ ''Return ONLY a JSON array (no markdown):''
     @ [CHR 0x0A] @ ''[{"id":"q1","question":"...","answers":["A","B","C","D"],"correctIndex":0,"timeLimit":20}]''
     @ [CHR 0x0A] @ [CHR 0x0A] @ ''Conversation:''
     @ [CHR 0x0A] @ conversationText\<close>

section \<open>The outside world\<close>

text \<open>
  A promise is modelled by how it settles. Everything a handler asks of the platform or of
  a provider while it runs is an input of the model, collected in one record: the base64
  decoder of \<open>Buffer.from\<close>, the text model behind \<open>ai.models.generateContent\<close> (given the
  prompt, the \<open>text\<close> of the response, which may be undefined, or a rejection),
  \<open>JSON.parse\<close> (\<open>None\<close> when it throws), and the readings of \<open>Date.now()\<close> taken by the
  inserts.
\<close>

datatype 'a promise = Fulfilled 'a | Rejected string

record env =
  Buffer_from_base64 :: "string \<Rightarrow> 8 word list"
  generateContent :: "string \<Rightarrow> string option promise"
  JSON_parse :: "string \<Rightarrow> json option"
  now_user :: nat
  now_assistant :: nat
  now_quiz :: nat

section \<open>Strings\<close>

text \<open>
  A \<^typ>\<open>char\<close> stands for a UTF-16 code unit below 256. \<open>is_space\<close> is the white space of
  \<open>String.prototype.trim\<close> and of \<open>\s\<close> in that range.
\<close>

definition is_space :: "char \<Rightarrow> bool" where
  "is_space c \<longleftrightarrow> (of_char c :: nat) \<in> {9, 10, 11, 12, 13, 32, 160}"

definition trim :: "string \<Rightarrow> string" where
  "trim s = rev (dropWhile is_space (rev (dropWhile is_space s)))"

definition to_upper :: "char \<Rightarrow> char" where
  "to_upper c = (let n = (of_char c :: nat) in if 97 \<le> n \<and> n \<le> 122 then char_of (n - 32) else c)"

definition toUpperCase :: "string \<Rightarrow> string" where
  \<comment> \<open>exact on ASCII; other letters are left alone, which decides no comparison made here\<close>
  "toUpperCase s = map to_upper s"

fun decimal :: "nat \<Rightarrow> string" where
  "decimal n = (if n < 10 then [char_of (48 + n)] else decimal (n div 10) @ [char_of (48 + n mod 10)])"

declare decimal.simps [simp del]

definition number_text :: "int \<Rightarrow> string" where
  \<comment> \<open>an integer inside a template literal\<close>
  "number_text i = (if i < 0 then ''-'' @ decimal (nat (- i)) else decimal (nat i))"

definition join :: "string \<Rightarrow> string list \<Rightarrow> string" where
  "join sep xs = (case xs of [] \<Rightarrow> [] | x # rest \<Rightarrow> foldl (\<lambda>acc y. acc @ sep @ y) x rest)"

definition strip_fence_start :: "string \<Rightarrow> string" where
  \<comment> \<open>\<open>.replace(/^```(?:json)?\s*/i, "")\<close>\<close>
  "strip_fence_start s =
     (if take 3 s = ''```''
      then let r = drop 3 s;
               r' = (if toUpperCase (take 4 r) = ''JSON'' then drop 4 r else r)
           in dropWhile is_space r'
      else s)"

fun strip_fence_end :: "string \<Rightarrow> string" where
  \<comment> \<open>\<open>.replace(/```\s*$/, "")\<close>: the leftmost fence that only white space follows\<close>
  "strip_fence_end [] = []"
| "strip_fence_end (c # cs) =
     (if take 3 (c # cs) = ''```'' \<and> list_all is_space (drop 3 (c # cs)) then []
      else c # strip_fence_end cs)"

section \<open>Quiz generation (gemini.ts)\<close>

definition speaker_line :: "Message \<Rightarrow> string" where
  "speaker_line m = (if role m = User then ''Guest'' else ''MC'') @ '': '' @ content m"

definition conversationText :: "Message list \<Rightarrow> string" where
  \<comment> \<open>\<open>[...history].reverse().slice(0, QUIZ.PROMPT_HISTORY_LIMIT).map(...).join("\n")\<close>\<close>
  "conversationText history =
     join [CHR 0x0A] (map speaker_line (take PROMPT_HISTORY_LIMIT (rev history)))"

definition cleaned :: "string option \<Rightarrow> string" where
  \<comment> \<open>from \<open>result.text\<close> to the text handed to \<open>JSON.parse\<close>\<close>
  "cleaned text =
     (let raw = (case text of None \<Rightarrow> [] | Some t \<Rightarrow> trim t)
      in trim (strip_fence_end (strip_fence_start raw)))"

definition generateQuiz :: "env \<Rightarrow> Message list \<Rightarrow> json promise" where
  "generateQuiz e history =
     (case generateContent e (GENERATION_PROMPT (conversationText history)) of
        Rejected err \<Rightarrow> Rejected err
      | Fulfilled text \<Rightarrow>
          (case JSON_parse e (cleaned text) of
             Some questions \<Rightarrow> Fulfilled questions
           | None \<Rightarrow> Fulfilled (JArray [])))"

section \<open>Events (events/types.ts, engine.ts, quiz-rule.ts, quiz-agent.ts)\<close>

record TurnContext =
  sessionId :: string
  userMessage :: string
  aiMessage :: string
  messageCount :: int
  history :: "Message list"

datatype MCEvent = Quiz (payload: json)

text \<open>
  A trigger is its name and its \<open>onTurn\<close>. A call of \<open>onTurn\<close> either throws before it
  returns, or returns a promise, of which the engine sees how it settles. An \<open>async\<close>
  method, as both triggers of the repository have, always returns: what is thrown inside
  it rejects its promise.
\<close>

datatype 'a invoked = Throws string | Returns 'a

record EventTrigger =
  name :: string
  onTurn :: "TurnContext \<Rightarrow> MCEvent option promise invoked"

type_synonym EventEngine = "EventTrigger list"

definition register :: "EventEngine \<Rightarrow> EventTrigger \<Rightarrow> EventEngine" where
  "register triggers t = triggers @ [t]"

function collect :: "EventEngine \<Rightarrow> MCEvent option promise list \<Rightarrow> nat
    \<Rightarrow> MCEvent list \<times> (string \<times> string) list \<Rightarrow> MCEvent list \<times> (string \<times> string) list" where
  \<comment> \<open>the \<open>for\<close> loop of \<open>processTurn\<close>; the second list is what \<open>console.error\<close> is given\<close>
  "collect triggers results i acc =
     (if i < length results
      then (case results ! i of
              Fulfilled v \<Rightarrow>
                (case v of
                   Some ev \<Rightarrow> collect triggers results (i + 1) (fst acc @ [ev], snd acc)
                 | None \<Rightarrow> collect triggers results (i + 1) acc)
            | Rejected reason \<Rightarrow>
                collect triggers results (i + 1) (fst acc, snd acc @ [(name (triggers ! i), reason)]))
      else acc)"
  by pat_completeness auto
termination
  by (relation "measure (\<lambda>(triggers, results, i, acc). length results - i)") auto

declare collect.simps [simp del]

fun call_all :: "EventTrigger list \<Rightarrow> TurnContext \<Rightarrow> MCEvent option promise list invoked" where
  \<comment> \<open>\<open>this.triggers.map((t) => t.onTurn(ctx))\<close>: the calls are made in order, and the first
      that throws ends the \<open>map\<close>\<close>
  "call_all [] ctx = Returns []"
| "call_all (t # ts) ctx =
     (case onTurn t ctx of
        Throws err \<Rightarrow> Throws err
      | Returns p \<Rightarrow>
          (case call_all ts ctx of
             Throws err \<Rightarrow> Throws err
           | Returns ps \<Rightarrow> Returns (p # ps)))"

definition processTurn_logged :: "EventEngine \<Rightarrow> TurnContext
    \<Rightarrow> (MCEvent list \<times> (string \<times> string) list) promise" where
  \<comment> \<open>\<open>processTurn\<close> is \<open>async\<close>: a throw of the \<open>map\<close> rejects its promise, before
      \<open>Promise.allSettled\<close> is reached\<close>
  "processTurn_logged triggers ctx =
     (case call_all triggers ctx of
        Throws err \<Rightarrow> Rejected err
      | Returns results \<Rightarrow> Fulfilled (collect triggers results 0 ([], [])))"

definition processTurn :: "EventEngine \<Rightarrow> TurnContext \<Rightarrow> MCEvent list promise" where
  "processTurn triggers ctx =
     (case processTurn_logged triggers ctx of
        Rejected err \<Rightarrow> Rejected err
      | Fulfilled r \<Rightarrow> Fulfilled (fst r))"

definition rule_onTurn :: "env \<Rightarrow> TurnContext \<Rightarrow> MCEvent option promise" where
  "rule_onTurn e ctx =
     (if messageCount ctx \<le> 0 \<or> messageCount ctx smod TRIGGER_EVERY_N_MESSAGES \<noteq> 0
      then Fulfilled None
      else case generateQuiz e (history ctx) of
             Rejected err \<Rightarrow> Rejected err
           | Fulfilled questions \<Rightarrow>
               (case length_is_zero questions of
                  None \<Rightarrow> Rejected ''TypeError''
                | Some True \<Rightarrow> Fulfilled None
                | Some False \<Rightarrow> Fulfilled (Some (Quiz questions))))"

definition QuizRuleTrigger :: "env \<Rightarrow> EventTrigger" where
  "QuizRuleTrigger e = \<lparr>name = ''quiz-rule'', onTurn = (\<lambda>ctx. Returns (rule_onTurn e ctx))\<rparr>"

text \<open>
  The agent trigger keeps \<open>lastTriggeredAt\<close> between turns; \<open>None\<close> is its initial
  \<open>-Infinity\<close>.
\<close>

definition buildDecisionPrompt :: "TurnContext \<Rightarrow> string" where
  \<open>buildDecisionPrompt ctx =
     (let recent = join [CHR 0x0A] (map speaker_line (drop (length (history ctx) - 6) (history ctx)))
      in ''You are an event coordinator for a live AI MC show.''
         @ [CHR 0x0A] @ ''Decide whether NOW is a good time to run a trivia quiz for the audience.''
         @ [CHR 0x0A] @ [CHR 0x0A] @ ''Rules:''
         @ [CHR 0x0A] @ ''- At least 4 user messages must have occurred (current count: ''
         @ number_text (messageCount ctx) @ '')''
         @ [CHR 0x0A] @ ''- The conversation must contain interesting facts or topics worth quizzing on''
         @ [CHR 0x0A] @ ''- Don't trigger if the conversation is purely casual/emotional with no learnable content''
         @ [CHR 0x0A] @ ''- Maintain at least 3 turns between quizzes''
         @ [CHR 0x0A] @ [CHR 0x0A] @ ''Recent conversation:''
         @ [CHR 0x0A] @ recent
         @ [CHR 0x0A] @ [CHR 0x0A] @ ''Respond with ONLY "YES" or "NO".'')\<close>

definition agent_onTurn :: "env \<Rightarrow> int \<Rightarrow> int option \<Rightarrow> TurnContext
    \<Rightarrow> MCEvent option promise \<times> int option" where
  "agent_onTurn e minGap lastTriggeredAt ctx =
     (if messageCount ctx < 4 \<or>
         (case lastTriggeredAt of None \<Rightarrow> False | Some l \<Rightarrow> messageCount ctx - l < minGap)
      then (Fulfilled None, lastTriggeredAt)
      else case generateContent e (buildDecisionPrompt ctx) of
             Rejected err \<Rightarrow> (Rejected err, lastTriggeredAt)
           | Fulfilled text \<Rightarrow>
               if map_option (\<lambda>t. toUpperCase (trim t)) text \<noteq> Some ''YES''
               then (Fulfilled None, lastTriggeredAt)
               else case generateQuiz e (history ctx) of
                      Rejected err \<Rightarrow> (Rejected err, lastTriggeredAt)
                    | Fulfilled questions \<Rightarrow>
                        (case length_is_zero questions of
                           None \<Rightarrow> (Rejected ''TypeError'', lastTriggeredAt)
                         | Some True \<Rightarrow> (Fulfilled None, lastTriggeredAt)
                         | Some False \<Rightarrow>
                             (Fulfilled (Some (Quiz questions)), Some (messageCount ctx))))"

definition QuizAgentTrigger :: "env \<Rightarrow> int \<Rightarrow> int option \<Rightarrow> EventTrigger" where
  \<comment> \<open>the agent trigger as the engine sees it in one turn, at its current state\<close>
  "QuizAgentTrigger e minGap lastTriggeredAt =
     \<lparr>name = ''quiz-agent'',
      onTurn = (\<lambda>ctx. Returns (fst (agent_onTurn e minGap lastTriggeredAt ctx)))\<rparr>"

section \<open>Connection handler (ws-handler.ts)\<close>

subsection \<open>Energy of a frame\<close>

definition SPEECH_THRESHOLD :: real where
  "SPEECH_THRESHOLD = 400"

definition readInt16LE :: "8 word list \<Rightarrow> nat \<Rightarrow> int option" where
  \<comment> \<open>\<open>None\<close> is the \<open>RangeError\<close> of a read past the end of the buffer\<close>
  "readInt16LE buf off =
     (if off + 2 \<le> length buf
      then Some (sint (word_cat (buf ! (off + 1)) (buf ! off) :: 16 word))
      else None)"

function sum_squares :: "8 word list \<Rightarrow> nat \<Rightarrow> nat \<Rightarrow> int \<Rightarrow> int option" where
  \<comment> \<open>the \<open>for\<close> loop of \<open>calcPCMRMS\<close>, from index \<open>i\<close> with the sum so far\<close>
  "sum_squares buf count' i acc =
     (if i < count'
      then (case readInt16LE buf (i * 2) of
              None \<Rightarrow> None
            | Some s \<Rightarrow> sum_squares buf count' (i + 1) (acc + s * s))
      else Some acc)"
  by pat_completeness auto
termination
  by (relation "measure (\<lambda>(buf, count', i, acc). count' - i)") auto

declare sum_squares.simps [simp del]

definition calcPCMRMS :: "env \<Rightarrow> string \<Rightarrow> real option" where
  "calcPCMRMS e base64PCM =
     (let buf = Buffer_from_base64 e base64PCM;
          count' = length buf div 2
      in if count' = 0 then Some 0
         else case sum_squares buf count' 0 0 of
                None \<Rightarrow> None
              | Some acc \<Rightarrow> Some (sqrt (real_of_int acc / real count')))"

text \<open>
  What the energy detector is specified to compute: the samples of a buffer, two bytes
  each, low byte first, a trailing odd byte dropped; and the root mean square of a list
  of samples.
\<close>

fun samples_le :: "8 word list \<Rightarrow> int list" where
  "samples_le (lo # hi # rest) = sint (word_cat hi lo :: 16 word) # samples_le rest"
| "samples_le _ = []"

definition root_mean_square :: "int list \<Rightarrow> real" where
  "root_mean_square xs =
     (if xs = [] then 0 else sqrt (real_of_int (\<Sum>x\<leftarrow>xs. x * x) / real (length xs)))"

subsection \<open>Connection state and messages\<close>

datatype waiting_turn = NotRecorded | Awaiting "MCEvent list promise"

text \<open>
  The variables \<open>handleConnection\<close> closes over. The provider session is present or not;
  the silence timer is pending or not (every assignment of a new timer follows the
  clearing of the old one, so at most one is outstanding). \<open>waiting\<close> holds the
  turn-completion handlers that have begun and not yet resumed: either the turn was not
  recorded, or the handler awaits what \<open>processTurn\<close> returns. \<open>personaId\<close> and \<open>ttsMode\<close>
  are only read by \<open>init\<close>. What a handler sends is listed in the order of the calls:
  \<open>ToClient m\<close> is the call \<open>send(ws, m)\<close>, which passes \<open>m\<close> on if the socket is open, and
  \<open>ToProvider x\<close> is the call \<open>session.sendRealtimeInput(x)\<close> made by \<open>sendActivityStart\<close>,
  \<open>sendActivityEnd\<close> or \<open>sendAudioChunk\<close>, whose failure is caught and logged.
\<close>

record conn =
  conn_sessionId :: "string option"
  geminiSession :: bool
  currentUserTranscript :: string
  isActivityActive :: bool
  silenceTimer :: bool
  waiting :: "waiting_turn list"

datatype avatar = Idle | Listening | Speaking | Thinking

datatype ServerMessage =
    SessionReady string
  | Transcript string
  | AiText string
  | AiAudio string string bool
  | AvatarState avatar
  | QuizMsg json
  | ErrorMsg string

datatype realtime_input = ActivityStart | ActivityEnd | Audio string

datatype sent = ToClient ServerMessage | ToProvider realtime_input

subsection \<open>Turn completion\<close>

definition dispatchEvent :: "env \<Rightarrow> db \<Rightarrow> string \<Rightarrow> MCEvent \<Rightarrow> db \<times> sent list" where
  "dispatchEvent e d sid event =
     (case event of Quiz questions \<Rightarrow>
        (saveQuiz d sid questions (now_quiz e), [ToClient (QuizMsg questions)]))"

fun dispatch_all :: "env \<Rightarrow> db \<Rightarrow> string \<Rightarrow> MCEvent list \<Rightarrow> db \<times> sent list" where
  "dispatch_all e d sid [] = (d, [])"
| "dispatch_all e d sid (event # events) =
     (let (d1, out1) = dispatchEvent e d sid event;
          (d2, out2) = dispatch_all e d1 sid events
      in (d2, out1 @ out2))"

definition turn_context :: "db \<Rightarrow> string \<Rightarrow> string \<Rightarrow> string \<Rightarrow> TurnContext" where
  \<comment> \<open>the read-back and the context handed to \<open>processTurn\<close>\<close>
  "turn_context d sid user_text ai_text =
     \<lparr>sessionId = sid, userMessage = user_text, aiMessage = ai_text,
      messageCount = getUserMessageCount d sid,
      history = getMessages d sid HISTORY_WINDOW\<rparr>"

definition persist_turn :: "env \<Rightarrow> db \<Rightarrow> string \<Rightarrow> string \<Rightarrow> string \<Rightarrow> db" where
  \<comment> \<open>the two inserts of a turn, each with its own clock reading\<close>
  "persist_turn e d sid user_text ai_text =
     addMessage (addMessage d sid User user_text (now_user e)) sid Assistant ai_text (now_assistant e)"

definition saveTurn_begin :: "EventEngine \<Rightarrow> env \<Rightarrow> db \<Rightarrow> conn \<Rightarrow> string \<Rightarrow> db \<times> waiting_turn" where
  \<comment> \<open>\<open>saveTurnAndDispatchEvents\<close> up to its \<open>await\<close>: the early return, or the inserts, the
      read-back and the call of \<open>processTurn\<close>\<close>
  "saveTurn_begin engine e d c ai_text =
     (case conn_sessionId c of
        None \<Rightarrow> (d, NotRecorded)
      | Some sid \<Rightarrow>
          if sid = [] \<or> currentUserTranscript c = [] then (d, NotRecorded)
          else let d2 = persist_turn e d sid (currentUserTranscript c) ai_text;
                   ctx = turn_context d2 sid (currentUserTranscript c) ai_text
               in (d2, Awaiting (processTurn engine ctx)))"

definition saveTurn_resume :: "env \<Rightarrow> db \<Rightarrow> string option \<Rightarrow> waiting_turn \<Rightarrow> db \<times> sent list promise" where
  \<comment> \<open>\<open>saveTurnAndDispatchEvents\<close> from its \<open>await\<close> on: it rejects if \<open>processTurn\<close> did, and
      otherwise dispatches the events under the session id of that moment (an insert without
      one violates \<open>NOT NULL\<close>)\<close>
  "saveTurn_resume e d sid w =
     (case w of
        NotRecorded \<Rightarrow> (d, Fulfilled [])
      | Awaiting (Rejected err) \<Rightarrow> (d, Rejected err)
      | Awaiting (Fulfilled events) \<Rightarrow>
          if events = [] then (d, Fulfilled [])
          else (case sid of
                  None \<Rightarrow> (d, Rejected ''SqliteError'')
                | Some s \<Rightarrow> (let (d', out) = dispatch_all e d s events in (d', Fulfilled out))))"

definition saveTurnAndDispatchEvents :: "EventEngine \<Rightarrow> env \<Rightarrow> db \<Rightarrow> conn \<Rightarrow> string
    \<Rightarrow> db \<times> sent list promise" where
  \<comment> \<open>one call from beginning to end, nothing else running in between\<close>
  "saveTurnAndDispatchEvents engine e d c ai_text =
     (let (d2, w) = saveTurn_begin engine e d c ai_text
      in saveTurn_resume e d2 (conn_sessionId c) w)"

definition eventEngine :: "env \<Rightarrow> EventEngine" where
  "eventEngine e = register [] (QuizRuleTrigger e)"

subsection \<open>Handlers\<close>

definition handle_audio_chunk :: "env \<Rightarrow> conn \<Rightarrow> string \<Rightarrow> conn \<times> sent list" where
  "handle_audio_chunk e c data =
     (if \<not> geminiSession c then (c, [])
      else case calcPCMRMS e data of
             None \<Rightarrow> (c, [])
           | Some energy \<Rightarrow>
               (let (c1, out1) =
                      (if energy > SPEECH_THRESHOLD
                       then let c' = c\<lparr>silenceTimer := False\<rparr>;
                                (c'', out) = (if \<not> isActivityActive c'
                                              then (c'\<lparr>isActivityActive := True\<rparr>, [ToProvider ActivityStart])
                                              else (c', []))
                            in (c''\<lparr>silenceTimer := True\<rparr>, out)
                       else (c, []))
                in if isActivityActive c1 then (c1, out1 @ [ToProvider (Audio data)])
                   else (c1, out1)))"

definition silence_timeout :: "conn \<Rightarrow> conn \<times> sent list" where
  \<comment> \<open>the callback of the pending timer; without a pending timer there is nothing to run\<close>
  "silence_timeout c =
     (if \<not> silenceTimer c then (c, [])
      else let c' = c\<lparr>silenceTimer := False\<rparr>
           in if geminiSession c' \<and> isActivityActive c'
              then (c'\<lparr>isActivityActive := False\<rparr>, [ToProvider ActivityEnd])
              else (c', []))"

definition handle_force_commit :: "conn \<Rightarrow> conn \<times> sent list" where
  "handle_force_commit c =
     (if \<not> geminiSession c then (c, [])
      else let c' = c\<lparr>silenceTimer := False\<rparr>;
               (c'', out) = (if isActivityActive c'
                             then (c'\<lparr>isActivityActive := False\<rparr>, [ToProvider ActivityEnd])
                             else (c', []))
           in (c'', out @ [ToClient (AvatarState Thinking)]))"

definition onTranscript :: "conn \<Rightarrow> string \<Rightarrow> conn \<times> sent list" where
  "onTranscript c text =
     (c\<lparr>currentUserTranscript := text\<rparr>, [ToClient (Transcript text), ToClient (AvatarState Thinking)])"

text \<open>
  The handler of a response chunk is \<open>async\<close>. On the completion of the provider's turn it
  sends, begins \<open>saveTurnAndDispatchEvents\<close> and waits for it; only when that has
  finished does it clear the utterance and reset the activity state. What it still has to
  do is kept in \<open>waiting\<close> until it resumes. If \<open>saveTurnAndDispatchEvents\<close> rejects, the
  handler ends there and resets nothing.
\<close>

definition onAudioChunk :: "env \<Rightarrow> db \<times> conn \<Rightarrow> string \<Rightarrow> string \<Rightarrow> bool \<Rightarrow> (db \<times> conn) \<times> sent list" where
  \<comment> \<open>the provider's response chunk, up to the \<open>await\<close>; \<open>done\<close> marks the completion of its turn\<close>
  "onAudioChunk e w base64 mimeType done =
     (case w of (d, c) \<Rightarrow>
        if \<not> done
        then ((d, c), [ToClient (AiAudio base64 mimeType False), ToClient (AvatarState Speaking)])
        else let (d2, t) = saveTurn_begin (eventEngine e) e d c ''[audio]''
             in ((d2, c\<lparr>waiting := waiting c @ [t]\<rparr>),
                 [ToClient (AiAudio [] mimeType True), ToClient (AvatarState Listening)]))"

definition onAudioChunk_resumes :: "env \<Rightarrow> db \<times> conn \<Rightarrow> nat \<Rightarrow> (db \<times> conn) \<times> sent list" where
  \<comment> \<open>the rest of that handler, for the \<open>k\<close>-th of the handlers that wait; without such a
      handler there is nothing to run\<close>
  "onAudioChunk_resumes e w k =
     (case w of (d, c) \<Rightarrow>
        if length (waiting c) \<le> k then ((d, c), [])
        else let c1 = c\<lparr>waiting := take k (waiting c) @ drop (Suc k) (waiting c)\<rparr>
             in (case saveTurn_resume e d (conn_sessionId c) (waiting c ! k) of
                   (d', Rejected err) \<Rightarrow> ((d', c1), [])
                 | (d', Fulfilled out) \<Rightarrow>
                     ((d', c1\<lparr>currentUserTranscript := [], isActivityActive := False,
                               silenceTimer := False\<rparr>), out)))"

subsection \<open>Runs of one connection\<close>

text \<open>
  One step is one handler running until it ends or waits, with the answers of the outside
  world during it. A run is a sequence of steps from a state of the store and the
  connection, once \<open>init\<close> has made the session. The handlers of audio frames,
  force-commit, the timer and the transcript never wait. The handler of a turn completion
  waits for the engine, and its rest is a step of its own, \<open>TurnHandlerResumes k\<close>: other
  steps come between the two whenever a trigger waits for the text model, and a transcript
  that arrives in the same provider message as the completion always does. A run may put
  any steps between them.
\<close>

datatype step =
    AudioFrame string
  | SilenceTimerFires
  | ForceCommit
  | ProviderTranscript string
  | ProviderAudio string string bool
  | TurnHandlerResumes nat

definition turn_completion :: "step \<Rightarrow> bool" where
  "turn_completion s = (case s of ProviderAudio b m done \<Rightarrow> done | _ \<Rightarrow> False)"

definition do_step :: "db \<times> conn \<Rightarrow> env \<times> step \<Rightarrow> (db \<times> conn) \<times> sent list" where
  "do_step w es =
     (case w of (d, c) \<Rightarrow> case es of (e, s) \<Rightarrow>
        (case s of
           AudioFrame data \<Rightarrow> (let (c', out) = handle_audio_chunk e c data in ((d, c'), out))
         | SilenceTimerFires \<Rightarrow> (let (c', out) = silence_timeout c in ((d, c'), out))
         | ForceCommit \<Rightarrow> (let (c', out) = handle_force_commit c in ((d, c'), out))
         | ProviderTranscript text \<Rightarrow> (let (c', out) = onTranscript c text in ((d, c'), out))
         | ProviderAudio base64 mimeType done \<Rightarrow> onAudioChunk e (d, c) base64 mimeType done
         | TurnHandlerResumes k \<Rightarrow> onAudioChunk_resumes e (d, c) k))"

fun run :: "db \<times> conn \<Rightarrow> (env \<times> step) list \<Rightarrow> (db \<times> conn) \<times> sent list" where
  "run w [] = (w, [])"
| "run w (es # rest) =
     (let (w1, out1) = do_step w es;
          (w2, out2) = run w1 rest
      in (w2, out1 @ out2))"




section \<open>Notions of the specification\<close>

definition rejects :: "'a promise \<Rightarrow> bool" where
  "rejects r = (case r of Rejected reason \<Rightarrow> True | Fulfilled v \<Rightarrow> False)"

definition throws :: "'a invoked \<Rightarrow> bool" where
  "throws r = (case r of Throws reason \<Rightarrow> True | Returns v \<Rightarrow> False)"

definition fails :: "'a promise invoked \<Rightarrow> bool" where
  \<comment> \<open>a call of \<open>onTurn\<close> fails by throwing or by rejecting\<close>
  "fails r = (case r of Throws reason \<Rightarrow> True | Returns p \<Rightarrow> rejects p)"

definition emitted :: "MCEvent option promise invoked \<Rightarrow> MCEvent list" where
  \<comment> \<open>the event of a trigger that succeeded with one, as a list of at most one event\<close>
  "emitted r = (case r of Returns (Fulfilled (Some ev)) \<Rightarrow> [ev] | _ \<Rightarrow> [])"

definition question_count :: "json \<Rightarrow> nat" where
  \<comment> \<open>the number of questions a quiz carries: the elements of the array, and none if it is
      not an array\<close>
  "question_count v = (case v of JArray xs \<Rightarrow> length xs | _ \<Rightarrow> 0)"

definition is_list :: "json promise \<Rightarrow> bool" where
  \<comment> \<open>generation failed or returned a list, as its declared type says\<close>
  "is_list r = (case r of Rejected err \<Rightarrow> True | Fulfilled (JArray xs) \<Rightarrow> True | _ \<Rightarrow> False)"

definition records :: "conn \<Rightarrow> bool" where
  \<comment> \<open>a turn completing in this state is recorded: there is a session and a remembered utterance\<close>
  "records c = (case conn_sessionId c of None \<Rightarrow> False | Some sid \<Rightarrow> sid \<noteq> [] \<and> currentUserTranscript c \<noteq> [])"

fun recorded_turns :: "db \<times> conn \<Rightarrow> (env \<times> step) list \<Rightarrow> nat" where
  \<comment> \<open>the number of turns a run records\<close>
  "recorded_turns w [] = 0"
| "recorded_turns w (es # rest) =
     (if turn_completion (snd es) \<and> records (snd w) then 1 else 0)
       + recorded_turns (fst (do_step w es)) rest"





section \<open>Sample inputs\<close>

text \<open>
  Concrete worlds for the examples. \<open>base64\<close> decodes the standard alphabet up to the
  padding, as \<open>Buffer.from\<close> does on well-formed input. \<open>JSON_parse_table\<close> is
  \<open>JSON.parse\<close> on the texts the examples hand to it: two arrays, the empty object, and
  otherwise text that is not JSON.
\<close>

definition base64_digit :: "char \<Rightarrow> nat option" where
  "base64_digit c =
     (let n = (of_char c :: nat)
      in if 65 \<le> n \<and> n \<le> 90 then Some (n - 65)
         else if 97 \<le> n \<and> n \<le> 122 then Some (n - 71)
         else if 48 \<le> n \<and> n \<le> 57 then Some (n + 4)
         else if n = 43 then Some 62
         else if n = 47 then Some 63
         else None)"

fun base64_bytes :: "nat list \<Rightarrow> 8 word list" where
  "base64_bytes (a # b # c # d # rest) =
     of_nat (a * 4 + b div 16) # of_nat ((b mod 16) * 16 + c div 4) # of_nat ((c mod 4) * 64 + d)
       # base64_bytes rest"
| "base64_bytes [a, b, c] = [of_nat (a * 4 + b div 16), of_nat ((b mod 16) * 16 + c div 4)]"
| "base64_bytes [a, b] = [of_nat (a * 4 + b div 16)]"
| "base64_bytes _ = []"

definition base64 :: "string \<Rightarrow> 8 word list" where
  "base64 s = base64_bytes (List.map_filter base64_digit (takeWhile (\<lambda>c. c \<noteq> CHR ''='') s))"

definition question1 :: json where
  "question1 = JObject
     [(''id'', JString ''q1''), (''question'', JString ''Which planet is the largest?''),
      (''answers'', JArray [JString ''Mars'', JString ''Jupiter'', JString ''Venus'', JString ''Mercury'']),
      (''correctIndex'', JNumber 1), (''timeLimit'', JNumber 20)]"

definition question1_json :: string where
  \<open>question1_json = ''[{"id":"q1","question":"Which planet is the largest?","answers":["Mars","Jupiter","Venus","Mercury"],"correctIndex":1,"timeLimit":20}]''\<close>

definition JSON_parse_table :: "string \<Rightarrow> json option" where
  "JSON_parse_table s =
     (if s = ''[]'' then Some (JArray [])
      else if s = ''{}'' then Some (JObject [])
      else if s = question1_json then Some (JArray [question1])
      else None)"

definition answering :: "string option promise \<Rightarrow> env" where
  \<comment> \<open>a world whose text model says yes to the agent trigger's question and gives the same
      answer to every other prompt\<close>
  "answering answer =
     \<lparr>Buffer_from_base64 = base64,
      generateContent = (\<lambda>prompt. if take 8 prompt = ''You are '' then Fulfilled (Some ''YES'') else answer),
      JSON_parse = JSON_parse_table,
      now_user = 1000, now_assistant = 1000, now_quiz = 1001\<rparr>"

definition failing :: EventTrigger where
  \<comment> \<open>a trigger whose promise rejects\<close>
  "failing = \<lparr>name = ''failing'', onTurn = (\<lambda>ctx. Returns (Rejected ''boom''))\<rparr>"

definition throwing :: EventTrigger where
  \<comment> \<open>a trigger whose \<open>onTurn\<close> is not \<open>async\<close> and throws\<close>
  "throwing = \<lparr>name = ''throwing'', onTurn = (\<lambda>ctx. Throws ''boom'')\<rparr>"

definition at_count :: "int \<Rightarrow> TurnContext" where
  "at_count n = \<lparr>sessionId = ''s'', userMessage = ''u'', aiMessage = ''a'', messageCount = n, history = []\<rparr>"

definition fenced :: "string \<Rightarrow> string" where
  \<comment> \<open>a text inside a markdown code fence labelled json\<close>
  "fenced s = ''```json'' @ [CHR 0x0A] @ s @ [CHR 0x0A] @ ''```''"

definition connected :: conn where
  \<comment> \<open>a connection after \<open>init\<close>: session open, nobody speaking\<close>
  "connected = \<lparr>conn_sessionId = Some ''s'', geminiSession = True, currentUserTranscript = [],
     isActivityActive = False, silenceTimer = False, waiting = []\<rparr>"

definition empty_db :: db where
  "empty_db = \<lparr>messages = [], quizzes = []\<rparr>"

definition quiz_world :: env where
  \<comment> \<open>the text model answers with one well-formed question\<close>
  "quiz_world = answering (Fulfilled (Some question1_json))"

definition empty_world :: env where
  \<comment> \<open>the text model answers with the empty array\<close>
  "empty_world = answering (Fulfilled (Some ''[]''))"

definition object_world :: env where
  \<comment> \<open>the text model answers with the empty object\<close>
  "object_world = answering (Fulfilled (Some ''{}''))"

definition broken_world :: env where
  \<comment> \<open>the text model answers with a fenced text that is not JSON\<close>
  "broken_world = answering (Fulfilled (Some (fenced ''not json'')))"

definition four_turns :: db where
  \<comment> \<open>the store after four recorded turns of session \<open>s\<close>\<close>
  "four_turns = append_all empty_db ''s''
     [(User, ''u1'', 10), (Assistant, ''a1'', 11), (User, ''u2'', 20), (Assistant, ''a2'', 21),
      (User, ''u3'', 30), (Assistant, ''a3'', 31), (User, ''u4'', 40), (Assistant, ''a4'', 41)]"

definition heard :: "string \<Rightarrow> conn" where
  \<comment> \<open>the connection with an utterance remembered\<close>
  "heard utterance = connected\<lparr>currentUserTranscript := utterance\<rparr>"

section \<open>Round trip of the turn recorder\<close>

lemma session_rows_addMessage:
  "session_rows (addMessage d sid' r c now) sid =
     session_rows d sid @ (if sid' = sid then [\<lparr>role = r, content = c, timestamp = now\<rparr>] else [])"
  by (simp add: session_rows_def addMessage_def)

lemma session_rows_append_all:
  "session_rows (append_all d sid as) sid = session_rows d sid @ map as_message as"
  by (induction d sid as rule: append_all.induct)
     (simp_all add: session_rows_addMessage as_message_def)

lemma insort_key_last:
  "\<forall>y\<in>set ys. f y < f x \<Longrightarrow> insort_key f x ys = ys @ [x]"
  by (induction ys) auto

lemma order_desc_of_increasing:
  "sorted_wrt (\<lambda>a b. timestamp a < timestamp b) ms \<Longrightarrow> order_by_timestamp_desc ms = rev ms"
  unfolding order_by_timestamp_desc_def
  by (induction ms) (auto simp: insort_key_last)

lemma length_by_roles:
  "length (filter (\<lambda>a. fst a = User) as) + length (filter (\<lambda>a. fst a = Assistant) as) = length (as :: (role \<times> string \<times> nat) list)"
proof (induction as)
  case Nil
  show ?case by simp
next
  case (Cons a as)
  then show ?case by (cases "fst a") simp_all
qed

lemma answer_of_sorted:
  "sorted_wrt (\<lambda>a b. timestamp b \<le> timestamp a) s \<Longrightarrow> mset s = mset ms
     \<Longrightarrow> order_by_answer ms L (take L s)"
proof (induction s arbitrary: ms L)
  case Nil
  then show ?case by (cases L) simp_all
next
  case (Cons x s)
  show ?case
  proof (cases L)
    case 0
    then show ?thesis by simp
  next
    case (Suc n)
    from Cons.prems(2) have set: "set ms = set (x # s)" by (metis mset_eq_setD)
    then have x: "x \<in> set ms" by simp
    from Cons.prems(1) set have top: "list_all (\<lambda>y. timestamp y \<le> timestamp x) ms"
      by (auto simp: list_all_iff)
    have "mset s = mset (remove1 x ms)"
      using Cons.prems(2) by (metis mset_remove1 add_mset_remove_trivial mset.simps(2))
    with Cons.IH [of "remove1 x ms" n] Cons.prems(1)
    have "order_by_answer (remove1 x ms) n (take n s)" by simp
    with x top Suc show ?thesis by simp
  qed
qed

lemma getMessages_answer:
  "order_by_answer (session_rows d sid) limit (getMessages d sid limit)"
proof -
  have "sorted (map (\<lambda>m. - int (timestamp m)) (order_by_timestamp_desc (session_rows d sid)))"
    by (simp add: order_by_timestamp_desc_def)
  then have "sorted_wrt (\<lambda>a b. timestamp b \<le> timestamp a) (order_by_timestamp_desc (session_rows d sid))"
    by (simp add: sorted_map)
  moreover have "mset (order_by_timestamp_desc (session_rows d sid)) = mset (session_rows d sid)"
    by (simp add: order_by_timestamp_desc_def)
  ultimately show ?thesis
    unfolding getMessages_def by (rule answer_of_sorted)
qed

lemma answer_unique:
  "sorted_wrt (\<lambda>a b. timestamp a < timestamp b) ms \<Longrightarrow> order_by_answer ms L r
     \<Longrightarrow> r = take L (rev ms)"
proof (induction L arbitrary: ms r)
  case 0
  then show ?case by simp
next
  case (Suc n)
  show ?case
  proof (cases r)
    case Nil
    with Suc.prems show ?thesis by simp
  next
    case (Cons x r')
    with Suc.prems have x: "x \<in> set ms" and top: "\<forall>y \<in> set ms. timestamp y \<le> timestamp x"
      and rest: "order_by_answer (remove1 x ms) n r'"
      by (simp_all add: list_all_iff)
    from x obtain ys z where ms: "ms = ys @ [z]" by (cases ms rule: rev_cases) auto
    with Suc.prems(1) have inc: "sorted_wrt (\<lambda>a b. timestamp a < timestamp b) ys"
      and below: "\<forall>y \<in> set ys. timestamp y < timestamp z"
      by (simp_all add: sorted_wrt_append)
    have xz: "x = z"
    proof (rule ccontr)
      assume "x \<noteq> z"
      with x ms have "x \<in> set ys" by simp
      with below have "timestamp x < timestamp z" by simp
      moreover from top ms have "timestamp z \<le> timestamp x" by simp
      ultimately show False by simp
    qed
    from below have "z \<notin> set ys" by auto
    then have "remove1 x ms = ys" by (simp add: ms xz remove1_append)
    with rest Suc.IH [OF inc] have "r' = take n (rev ys)" by simp
    then show ?thesis by (simp add: Cons ms xz)
  qed
qed

text \<open>
  Where the timestamps of a session's messages strictly increase in appending order, the
  read-back is the reverse of the appending order: appending \<open>N\<close> user and \<open>N\<close> assistant
  messages and reading back with a limit \<open>L \<le> 2N\<close> returns exactly \<open>L\<close> messages, the last
  \<open>L\<close> appended, newest first, and every answer that SQL allows for the query is that same
  list.
\<close>

lemma getMessages_of_increasing_timestamps:
  assumes users: "length (filter (\<lambda>a. fst a = User) as) = N"
    and assistants: "length (filter (\<lambda>a. fst a = Assistant) as) = N"
    and "1 \<le> N" and L: "L \<le> 2 * N"
  shows "length (getMessages (append_all d sid as) sid L) = L
       \<and> (sorted_wrt (\<lambda>a b. timestamp a < timestamp b) (session_rows d sid @ map as_message as) \<longrightarrow>
            getMessages (append_all d sid as) sid L = take L (rev (map as_message as))
            \<and> (\<forall>r. order_by_answer (session_rows (append_all d sid as) sid) L r
                   \<longrightarrow> r = take L (rev (map as_message as))))"
proof (intro conjI impI)
  have len: "length as = 2 * N"
    using length_by_roles [of as] users assistants by simp
  show "length (getMessages (append_all d sid as) sid L) = L"
    using L len by (simp add: getMessages_def order_by_timestamp_desc_def session_rows_append_all)
  assume inc: "sorted_wrt (\<lambda>a b. timestamp a < timestamp b) (session_rows d sid @ map as_message as)"
  have t: "take L (rev (map as_message as) @ rev (session_rows d sid)) = take L (rev (map as_message as))"
    using L len by simp
  have "getMessages (append_all d sid as) sid L = take L (rev (map as_message as) @ rev (session_rows d sid))"
    by (simp add: getMessages_def session_rows_append_all order_desc_of_increasing [OF inc])
  with t show "getMessages (append_all d sid as) sid L = take L (rev (map as_message as))" by simp
  show "\<forall>r. order_by_answer (session_rows (append_all d sid as) sid) L r
      \<longrightarrow> r = take L (rev (map as_message as))"
  proof (intro allI impI)
    fix r
    assume "order_by_answer (session_rows (append_all d sid as) sid) L r"
    then have "order_by_answer (session_rows d sid @ map as_message as) L r"
      by (simp add: session_rows_append_all)
    then have "r = take L (rev (session_rows d sid @ map as_message as))"
      by (rule answer_unique [OF inc])
    with L len show "r = take L (rev (map as_message as))" by simp
  qed
qed

lemma turn_shares_timestamp:
  "session_rows (persist_turn quiz_world empty_db ''s'' ''hi'' ''hello'') ''s''
     = map as_message [(User, ''hi'', 1000), (Assistant, ''hello'', 1000)]"
  by (simp add: persist_turn_def addMessage_def session_rows_def empty_db_def as_message_def
      quiz_world_def answering_def)

text \<open>
  Claim C3 fails in the code. \<open>getMessages\<close> documents that it returns the messages
  newest first, and orders them by the millisecond reading of the clock alone. Append one
  user message and one assistant message at the same reading, as the two inserts of a turn
  are made, and read back with the limit 2: the answer is the user message and then the
  assistant reply, which is the appending order and not its reverse. The assistant reply,
  the newest message, comes last. The same holds for the rows that the handler writes for a
  turn.
\<close>

theorem getMessages_same_millisecond:
  "getMessages (append_all empty_db ''s'' [(User, ''hi'', 7), (Assistant, ''hello'', 7)]) ''s'' 2
      = map as_message [(User, ''hi'', 7), (Assistant, ''hello'', 7)]
   \<and> getMessages (append_all empty_db ''s'' [(User, ''hi'', 7), (Assistant, ''hello'', 7)]) ''s'' 2
      \<noteq> take 2 (rev (map as_message [(User, ''hi'', 7), (Assistant, ''hello'', 7)]))
   \<and> order_by_answer (session_rows (append_all empty_db ''s'' [(User, ''hi'', 7), (Assistant, ''hello'', 7)]) ''s'') 2
        (map as_message [(User, ''hi'', 7), (Assistant, ''hello'', 7)])
   \<and> getMessages (persist_turn quiz_world empty_db ''s'' ''hi'' ''hello'') ''s'' 2
      = map as_message [(User, ''hi'', 1000), (Assistant, ''hello'', 1000)]"
  by (simp add: getMessages_def turn_shares_timestamp) code_simp

section \<open>The event engine\<close>

lemma fst_collect:
  "fst (collect triggers results i acc)
     = fst acc @ concat (map (\<lambda>p. emitted (Returns p)) (drop i results))"
proof (induction triggers results i acc rule: collect.induct)
  case (1 triggers results i acc)
  show ?case
  proof (cases "i < length results")
    case False
    then show ?thesis by (simp add: collect.simps [of triggers results i acc])
  next
    case True
    then have d: "drop i results = results ! i # drop (Suc i) results"
      by (simp add: Cons_nth_drop_Suc)
    show ?thesis
    proof (cases "results ! i")
      case (Rejected reason)
      with True d "1.IH"(3) [OF True Rejected] show ?thesis
        by (simp add: emitted_def collect.simps [of triggers results i acc])
    next
      case (Fulfilled v)
      show ?thesis
      proof (cases v)
        case None
        with True d Fulfilled "1.IH"(1) [OF True Fulfilled None] show ?thesis
          by (simp add: emitted_def collect.simps [of triggers results i acc])
      next
        case (Some ev)
        with True d Fulfilled "1.IH"(2) [OF True Fulfilled Some] show ?thesis
          by (simp add: emitted_def collect.simps [of triggers results i acc])
      qed
    qed
  qed
qed

lemma call_all_returns:
  assumes "\<forall>t \<in> set ts. \<not> throws (onTurn t ctx)"
  shows "\<exists>ps. call_all ts ctx = Returns ps \<and> map Returns ps = map (\<lambda>t. onTurn t ctx) ts"
  using assms
proof (induction ts)
  case Nil
  show ?case by simp
next
  case (Cons t ts)
  then obtain ps where ps: "call_all ts ctx = Returns ps" "map Returns ps = map (\<lambda>t. onTurn t ctx) ts"
    by auto
  from Cons.prems obtain p where p: "onTurn t ctx = Returns p"
    by (cases "onTurn t ctx") (simp_all add: throws_def)
  with ps show ?case by simp
qed

lemma call_all_throws:
  assumes "\<exists>t \<in> set ts. throws (onTurn t ctx)"
  shows "\<exists>err. call_all ts ctx = Throws err"
  using assms
proof (induction ts)
  case Nil
  then show ?case by simp
next
  case (Cons t ts)
  show ?case
  proof (cases "onTurn t ctx")
    case (Throws err)
    then show ?thesis by simp
  next
    case (Returns p)
    with Cons.prems have "\<exists>t \<in> set ts. throws (onTurn t ctx)" by (simp add: throws_def)
    with Cons.IH obtain err where "call_all ts ctx = Throws err" by blast
    with Returns show ?thesis by simp
  qed
qed

lemma processTurn_eq:
  assumes "\<forall>t \<in> set triggers. \<not> throws (onTurn t ctx)"
  shows "processTurn triggers ctx = Fulfilled (concat (map (\<lambda>t. emitted (onTurn t ctx)) triggers))"
proof -
  from call_all_returns [OF assms] obtain ps where ps: "call_all triggers ctx = Returns ps"
    and m: "map Returns ps = map (\<lambda>t. onTurn t ctx) triggers" by blast
  have "map (\<lambda>p. emitted (Returns p)) ps = map emitted (map Returns ps)" by simp
  also have "\<dots> = map (\<lambda>t. emitted (onTurn t ctx)) triggers" by (simp add: m)
  finally show ?thesis
    by (simp add: processTurn_def processTurn_logged_def ps fst_collect)
qed

lemma processTurn_throws:
  assumes "\<exists>t \<in> set triggers. throws (onTurn t ctx)"
  shows "\<exists>err. processTurn triggers ctx = Rejected err"
proof -
  from call_all_throws [OF assms] obtain err where "call_all triggers ctx = Throws err" by blast
  then show ?thesis by (simp add: processTurn_def processTurn_logged_def)
qed

lemma foldl_register: "foldl register engine ts = engine @ ts"
  by (induction ts arbitrary: engine) (simp_all add: register_def)

lemma generation_prompt_start: "take 8 (GENERATION_PROMPT conversation) = ''Based on''"
  by (simp add: GENERATION_PROMPT_def)

lemma quiz_world_generateQuiz: "generateQuiz quiz_world h = Fulfilled (JArray [question1])"
  by (simp add: generateQuiz_def quiz_world_def answering_def generation_prompt_start) code_simp

lemma quiz_world_rule: "rule_onTurn quiz_world (at_count 5) = Fulfilled (Some (Quiz (JArray [question1])))"
  by (simp add: rule_onTurn_def quiz_world_generateQuiz length_is_zero_def at_count_def
      TRIGGER_EVERY_N_MESSAGES_def signed_modulo_int_def)

lemma rule_trigger_returns: "\<not> throws (onTurn (QuizRuleTrigger e) ctx)"
  by (simp add: QuizRuleTrigger_def throws_def)

text \<open>
  Claim C10. Register the triggers \<open>ts\<close> one after the other and process a turn. A list
  of events is returned exactly when no call of \<open>onTurn\<close> throws, and the list returned is
  the events of the triggers that succeeded with one, in the order in which the triggers
  were registered.
\<close>

theorem processTurn_registration_order:
  "processTurn (foldl register [] ts) ctx = Fulfilled events \<longleftrightarrow>
     (\<forall>t \<in> set ts. \<not> throws (onTurn t ctx))
     \<and> events = concat (map (\<lambda>t. emitted (onTurn t ctx)) ts)"
proof (cases "\<forall>t \<in> set ts. \<not> throws (onTurn t ctx)")
  case True
  then show ?thesis by (auto simp: foldl_register processTurn_eq)
next
  case False
  then have "\<exists>t \<in> set ts. throws (onTurn t ctx)" by simp
  from processTurn_throws [OF this] False show ?thesis by (auto simp: foldl_register)
qed

theorem processTurn_registration_order_witness:
  "\<not> throws (onTurn failing (at_count 5))
   \<and> \<not> throws (onTurn (QuizRuleTrigger quiz_world) (at_count 5))
   \<and> processTurn (foldl register [] [failing, QuizRuleTrigger quiz_world]) (at_count 5)
       = Fulfilled [Quiz (JArray [question1])]"
proof -
  have n: "\<forall>t \<in> set [failing, QuizRuleTrigger quiz_world]. \<not> throws (onTurn t (at_count 5))"
    by (simp add: failing_def QuizRuleTrigger_def throws_def)
  have "concat (map (\<lambda>t. emitted (onTurn t (at_count 5))) [failing, QuizRuleTrigger quiz_world])
      = [Quiz (JArray [question1])]"
    by (simp add: failing_def QuizRuleTrigger_def emitted_def quiz_world_rule)
  with n processTurn_registration_order [of "[failing, QuizRuleTrigger quiz_world]" "at_count 5"
      "[Quiz (JArray [question1])]"]
  show ?thesis by simp
qed

text \<open>
  A trigger whose promise rejects takes no part in the result. When no call of \<open>onTurn\<close>
  throws, \<open>processTurn\<close> fulfils; the events are exactly those of the triggers that
  succeeded with one, the same as if the rejecting triggers had never been registered.
\<close>

lemma processTurn_rejection_isolation:
  assumes "\<forall>t \<in> set triggers. \<not> throws (onTurn t ctx)"
  shows "processTurn triggers ctx = processTurn (filter (\<lambda>t. \<not> fails (onTurn t ctx)) triggers) ctx"
    and "\<exists>events. processTurn triggers ctx = Fulfilled events
           \<and> set events = {ev. \<exists>t \<in> set triggers. onTurn t ctx = Returns (Fulfilled (Some ev))}"
proof -
  have f: "\<forall>t \<in> set (filter (\<lambda>t. \<not> fails (onTurn t ctx)) triggers). \<not> throws (onTurn t ctx)"
    using assms by simp
  have "concat (map (\<lambda>t. emitted (onTurn t ctx)) triggers)
      = concat (map (\<lambda>t. emitted (onTurn t ctx)) (filter (\<lambda>t. \<not> fails (onTurn t ctx)) triggers))"
    by (induction triggers)
       (auto simp: emitted_def fails_def rejects_def split: invoked.splits promise.splits option.splits)
  then show "processTurn triggers ctx = processTurn (filter (\<lambda>t. \<not> fails (onTurn t ctx)) triggers) ctx"
    by (simp add: processTurn_eq [OF assms] processTurn_eq [OF f])
  have "set (concat (map (\<lambda>t. emitted (onTurn t ctx)) triggers))
      = {ev. \<exists>t \<in> set triggers. onTurn t ctx = Returns (Fulfilled (Some ev))}"
    by (auto simp: emitted_def split: invoked.splits promise.splits option.splits)
  then show "\<exists>events. processTurn triggers ctx = Fulfilled events
           \<and> set events = {ev. \<exists>t \<in> set triggers. onTurn t ctx = Returns (Fulfilled (Some ev))}"
    by (simp add: processTurn_eq [OF assms])
qed

lemma throwing_first:
  "processTurn [throwing, QuizRuleTrigger quiz_world] ctx = Rejected ''boom''"
  by (simp add: processTurn_def processTurn_logged_def throwing_def)

lemma throwing_last:
  "processTurn [QuizRuleTrigger quiz_world, throwing] ctx = Rejected ''boom''"
  by (simp add: processTurn_def processTurn_logged_def throwing_def QuizRuleTrigger_def)

lemma rejecting_first:
  "processTurn [failing, QuizRuleTrigger quiz_world] (at_count 5) = Fulfilled [Quiz (JArray [question1])]"
proof -
  have "\<forall>t \<in> set [failing, QuizRuleTrigger quiz_world]. \<not> throws (onTurn t (at_count 5))"
    by (simp add: failing_def QuizRuleTrigger_def throws_def)
  from processTurn_eq [OF this] show ?thesis
    by (simp add: failing_def QuizRuleTrigger_def emitted_def quiz_world_rule)
qed

lemma rule_alone:
  "processTurn [QuizRuleTrigger quiz_world] (at_count 5) = Fulfilled [Quiz (JArray [question1])]"
proof -
  have "\<forall>t \<in> set [QuizRuleTrigger quiz_world]. \<not> throws (onTurn t (at_count 5))"
    by (simp add: rule_trigger_returns)
  from processTurn_eq [OF this] show ?thesis
    by (simp add: QuizRuleTrigger_def emitted_def quiz_world_rule)
qed

text \<open>
  Claim C4 fails in the code. The engine isolates a trigger whose promise rejects: with
  such a trigger registered before the rule trigger, the rule trigger's quiz is returned as
  it is without it. It does not isolate a trigger whose \<open>onTurn\<close> throws before it returns
  a promise: the throw leaves the \<open>map\<close> that makes the calls, before
  \<open>Promise.allSettled\<close> sees any of them, so \<open>processTurn\<close> itself fails and the quiz of the
  rule trigger is lost, whether the throwing trigger was registered before or after it.
\<close>

theorem processTurn_throwing_trigger:
  "processTurn [QuizRuleTrigger quiz_world] (at_count 5) = Fulfilled [Quiz (JArray [question1])]
   \<and> fails (onTurn failing (at_count 5))
   \<and> processTurn [failing, QuizRuleTrigger quiz_world] (at_count 5) = Fulfilled [Quiz (JArray [question1])]
   \<and> fails (onTurn throwing (at_count 5))
   \<and> processTurn [throwing, QuizRuleTrigger quiz_world] (at_count 5) = Rejected ''boom''
   \<and> processTurn [QuizRuleTrigger quiz_world, throwing] (at_count 5) = Rejected ''boom''"
  by (simp add: rule_alone rejecting_first throwing_first throwing_last)
     (simp add: fails_def rejects_def failing_def throwing_def)

section \<open>The rule trigger\<close>

lemma smod_interval:
  "0 < n \<Longrightarrow> (n smod TRIGGER_EVERY_N_MESSAGES = 0) = (TRIGGER_EVERY_N_MESSAGES dvd n)"
  by (simp add: TRIGGER_EVERY_N_MESSAGES_def smod_mod_positive dvd_eq_mod_eq_0)

lemma rule_at_multiple:
  assumes "0 < messageCount ctx" and "TRIGGER_EVERY_N_MESSAGES dvd messageCount ctx"
  shows "rule_onTurn e ctx =
     (case generateQuiz e (history ctx) of
        Rejected err \<Rightarrow> Rejected err
      | Fulfilled questions \<Rightarrow>
          (case length_is_zero questions of
             None \<Rightarrow> Rejected ''TypeError''
           | Some True \<Rightarrow> Fulfilled None
           | Some False \<Rightarrow> Fulfilled (Some (Quiz questions))))"
  using assms by (simp add: rule_onTurn_def smod_interval)

lemma rule_off_multiple:
  assumes "\<not> (0 < messageCount ctx \<and> TRIGGER_EVERY_N_MESSAGES dvd messageCount ctx)"
  shows "rule_onTurn e ctx = Fulfilled None"
proof (cases "0 < messageCount ctx")
  case True
  with assms show ?thesis by (simp add: rule_onTurn_def smod_interval)
next
  case False
  then show ?thesis by (simp add: rule_onTurn_def)
qed

text \<open>
  Claim C2, as the trigger behaves. The trigger emits only at a count that is a positive
  multiple of the interval. There it emits what generation returned, unless the length
  test finds that empty. So where generation fails or returns a list, as its declared type
  says, the trigger emits a quiz event if and only if the user-message count is a positive
  multiple of the interval and the list holds at least one question, and the event carries
  that list. At the counts 5, 10 and 15 it emits whenever generation returns a list with a
  question, and at 1, 4, 6 and 9 it never emits.
\<close>

theorem rule_trigger_fires:
  "(rule_onTurn e ctx = Fulfilled (Some ev) \<longrightarrow>
      0 < messageCount ctx \<and> TRIGGER_EVERY_N_MESSAGES dvd messageCount ctx
      \<and> generateQuiz e (history ctx) = Fulfilled (payload ev))
   \<and> (is_list (generateQuiz e (history ctx)) \<longrightarrow>
        (rule_onTurn e ctx = Fulfilled (Some ev) \<longleftrightarrow>
           0 < messageCount ctx \<and> TRIGGER_EVERY_N_MESSAGES dvd messageCount ctx
           \<and> (\<exists>questions. generateQuiz e (history ctx) = Fulfilled questions
                 \<and> 1 \<le> question_count questions \<and> ev = Quiz questions)))
   \<and> (messageCount ctx \<in> {5, 10, 15} \<and> generateQuiz e (history ctx) = Fulfilled questions
        \<and> 1 \<le> question_count questions \<longrightarrow> rule_onTurn e ctx = Fulfilled (Some (Quiz questions)))
   \<and> (messageCount ctx \<in> {1, 4, 6, 9} \<longrightarrow> rule_onTurn e ctx = Fulfilled None)"
proof (intro conjI impI)
  assume a: "rule_onTurn e ctx = Fulfilled (Some ev)"
  have m: "0 < messageCount ctx \<and> TRIGGER_EVERY_N_MESSAGES dvd messageCount ctx"
    using a rule_off_multiple [of ctx e] by auto
  from m show "0 < messageCount ctx" by simp
  from m show "TRIGGER_EVERY_N_MESSAGES dvd messageCount ctx" by simp
  from m a rule_at_multiple [of ctx e]
  show "generateQuiz e (history ctx) = Fulfilled (payload ev)"
    by (auto split: promise.splits option.splits bool.splits)
next
  assume l: "is_list (generateQuiz e (history ctx))"
  show "rule_onTurn e ctx = Fulfilled (Some ev) \<longleftrightarrow>
      0 < messageCount ctx \<and> TRIGGER_EVERY_N_MESSAGES dvd messageCount ctx
      \<and> (\<exists>questions. generateQuiz e (history ctx) = Fulfilled questions
            \<and> 1 \<le> question_count questions \<and> ev = Quiz questions)"
  proof (cases "0 < messageCount ctx \<and> TRIGGER_EVERY_N_MESSAGES dvd messageCount ctx")
    case False
    with rule_off_multiple [OF False, of e] show ?thesis by auto
  next
    case True
    show ?thesis
    proof (cases "generateQuiz e (history ctx)")
      case (Rejected err)
      with True rule_at_multiple [of ctx e] show ?thesis by simp
    next
      case (Fulfilled v)
      with l obtain xs where xs: "v = JArray xs"
        by (cases v) (simp_all add: is_list_def)
      from True Fulfilled xs rule_at_multiple [of ctx e] show ?thesis
        by (cases xs) (auto simp: length_is_zero_def question_count_def)
    qed
  qed
next
  assume a: "messageCount ctx \<in> {5, 10, 15} \<and> generateQuiz e (history ctx) = Fulfilled questions
        \<and> 1 \<le> question_count questions"
  then obtain x xs where xs: "questions = JArray (x # xs)"
    by (cases questions; cases "case questions of JArray ys \<Rightarrow> ys | _ \<Rightarrow> []")
       (simp_all add: question_count_def)
  from a have "0 < messageCount ctx" and "TRIGGER_EVERY_N_MESSAGES dvd messageCount ctx"
    by (auto simp: TRIGGER_EVERY_N_MESSAGES_def)
  from rule_at_multiple [OF this, of e] a xs
  show "rule_onTurn e ctx = Fulfilled (Some (Quiz questions))"
    by (simp add: length_is_zero_def)
next
  assume "messageCount ctx \<in> {1, 4, 6, 9}"
  then have "\<not> (0 < messageCount ctx \<and> TRIGGER_EVERY_N_MESSAGES dvd messageCount ctx)"
    by (auto simp: TRIGGER_EVERY_N_MESSAGES_def)
  then show "rule_onTurn e ctx = Fulfilled None" by (rule rule_off_multiple)
qed

theorem rule_trigger_fires_witness:
  "is_list (generateQuiz quiz_world (history (at_count 10)))
   \<and> messageCount (at_count 10) \<in> {5, 10, 15}
   \<and> rule_onTurn quiz_world (at_count 10) = Fulfilled (Some (Quiz (JArray [question1])))
   \<and> generateQuiz quiz_world (history (at_count 10)) = Fulfilled (payload (Quiz (JArray [question1])))
   \<and> messageCount (at_count 9) \<in> {1, 4, 6, 9}
   \<and> rule_onTurn quiz_world (at_count 9) = Fulfilled None"
proof -
  have g: "generateQuiz quiz_world h = Fulfilled (JArray [question1])" for h
    by (rule quiz_world_generateQuiz)
  have l: "is_list (generateQuiz quiz_world (history (at_count 10)))"
    by (simp add: g is_list_def)
  have fires: "rule_onTurn quiz_world (at_count 10) = Fulfilled (Some (Quiz (JArray [question1])))"
    using g l rule_trigger_fires [of "quiz_world" "at_count 10" "Quiz (JArray [question1])" "JArray [question1]"]
    by (simp add: at_count_def question_count_def)
  have "generateQuiz quiz_world (history (at_count 10)) = Fulfilled (payload (Quiz (JArray [question1])))"
    using fires rule_trigger_fires [of "quiz_world" "at_count 10" "Quiz (JArray [question1])"]
    by blast
  moreover have "rule_onTurn quiz_world (at_count 9) = Fulfilled None"
    using rule_trigger_fires [of "quiz_world" "at_count 9"]
    by (simp add: at_count_def)
  ultimately show ?thesis using l fires by (simp add: at_count_def)
qed

text \<open>
  The claim as stated fails where generation returns no question: at the count 5, a
  positive multiple of the interval, the trigger emits nothing when the model answers with
  the empty array.
\<close>

theorem rule_trigger_fires_counterexample:
  "0 < messageCount (at_count 5) \<and> TRIGGER_EVERY_N_MESSAGES dvd messageCount (at_count 5)
   \<and> rule_onTurn empty_world (at_count 5) = Fulfilled None"
  by code_simp

section \<open>Quizzes emitted, sent and stored\<close>

lemma dispatch_all_eq:
  "dispatch_all e d sid events =
     (d\<lparr>quizzes := quizzes d @ map (\<lambda>ev. (sid, payload ev, now_quiz e)) events\<rparr>,
      map (\<lambda>ev. ToClient (QuizMsg (payload ev))) events)"
proof (induction events arbitrary: d)
  case Nil
  show ?case by simp
next
  case (Cons ev events)
  show ?case
    by (cases ev) (simp add: Cons dispatchEvent_def saveQuiz_def)
qed

lemma quizzes_persist_turn: "quizzes (persist_turn e d sid u a) = quizzes d"
  by (simp add: persist_turn_def addMessage_def)

lemma saveTurn_begin_recorded:
  assumes "conn_sessionId c = Some sid" and "records c"
  shows "saveTurn_begin engine e d c ai
     = (persist_turn e d sid (currentUserTranscript c) ai,
        Awaiting (processTurn engine (turn_context (persist_turn e d sid (currentUserTranscript c) ai) sid
           (currentUserTranscript c) ai)))"
  using assms by (simp add: saveTurn_begin_def records_def Let_def)

lemma saveTurn_begin_not_recorded:
  "\<not> records c \<Longrightarrow> saveTurn_begin engine e d c ai = (d, NotRecorded)"
  by (auto simp: saveTurn_begin_def records_def split: option.splits)

lemma saveTurn_recorded:
  assumes "conn_sessionId c = Some sid" and "records c"
  shows "saveTurnAndDispatchEvents engine e d c ai
     = saveTurn_resume e (persist_turn e d sid (currentUserTranscript c) ai) (Some sid)
         (Awaiting (processTurn engine (turn_context (persist_turn e d sid (currentUserTranscript c) ai) sid
            (currentUserTranscript c) ai)))"
  using assms by (simp add: saveTurnAndDispatchEvents_def saveTurn_begin_recorded [OF assms])

lemma saveTurn_not_recorded:
  "\<not> records c \<Longrightarrow> saveTurnAndDispatchEvents engine e d c ai = (d, Fulfilled [])"
  by (simp add: saveTurnAndDispatchEvents_def saveTurn_begin_not_recorded saveTurn_resume_def)

lemma saveTurn_resume_no_event: "saveTurn_resume e d sid (Awaiting (Fulfilled [])) = (d, Fulfilled [])"
  by (simp add: saveTurn_resume_def)

lemma object_world_generateQuiz: "generateQuiz object_world h = Fulfilled (JObject [])"
  by (simp add: generateQuiz_def object_world_def answering_def generation_prompt_start) code_simp

lemma object_world_rule:
  "rule_onTurn object_world (at_count 5) = Fulfilled (Some (Quiz (JObject [])))"
  by (simp add: rule_onTurn_def object_world_generateQuiz length_is_zero_def at_count_def
      TRIGGER_EVERY_N_MESSAGES_def signed_modulo_int_def)

lemma decision_prompt_start: "take 8 (buildDecisionPrompt ctx) = ''You are ''"
  by (simp add: buildDecisionPrompt_def Let_def)

lemma object_world_agent:
  "fst (agent_onTurn object_world 3 None (at_count 5)) = Fulfilled (Some (Quiz (JObject [])))"
proof -
  have "generateContent object_world (buildDecisionPrompt ctx) = Fulfilled (Some ''YES'')" for ctx
    by (simp add: object_world_def answering_def decision_prompt_start)
  moreover have "toUpperCase (trim ''YES'') = ''YES''" by code_simp
  ultimately show ?thesis
    by (simp add: agent_onTurn_def object_world_generateQuiz length_is_zero_def at_count_def)
qed

lemma fifth_turn_context:
  "messageCount (turn_context (persist_turn e four_turns ''s'' u a) ''s'' u a) = 5"
proof -
  have "getUserMessageCount four_turns ''s'' = 4" by code_simp
  then show ?thesis
    by (simp add: turn_context_def persist_turn_def getUserMessageCount_def addMessage_def)
qed

lemma object_world_fifth_turn:
  "saveTurnAndDispatchEvents (eventEngine object_world) object_world four_turns (heard ''u5'') ''[audio]''
     = (saveQuiz (persist_turn object_world four_turns ''s'' ''u5'' ''[audio]'') ''s'' (JObject []) 1001,
        Fulfilled [ToClient (QuizMsg (JObject []))])"
proof -
  let ?ctx = "turn_context (persist_turn object_world four_turns ''s'' ''u5'' ''[audio]'') ''s'' ''u5'' ''[audio]''"
  have s: "conn_sessionId (heard ''u5'') = Some ''s''" and r: "records (heard ''u5'')"
    and u: "currentUserTranscript (heard ''u5'') = ''u5''"
    by (simp_all add: heard_def connected_def records_def)
  have "rule_onTurn object_world ?ctx = Fulfilled (Some (Quiz (JObject [])))"
    by (simp add: rule_onTurn_def object_world_generateQuiz length_is_zero_def fifth_turn_context
        TRIGGER_EVERY_N_MESSAGES_def signed_modulo_int_def)
  then have "processTurn (eventEngine object_world) ?ctx = Fulfilled [Quiz (JObject [])]"
    by (simp add: processTurn_def processTurn_logged_def eventEngine_def register_def
        QuizRuleTrigger_def fst_collect emitted_def)
  moreover have "now_quiz object_world = 1001" by (simp add: object_world_def answering_def)
  ultimately show ?thesis
    by (simp add: saveTurn_recorded [OF s r] u saveTurn_resume_def dispatchEvent_def)
qed

text \<open>
  Claim C5 fails in the code. Both triggers test \<open>questions.length === 0\<close> on whatever
  \<open>JSON.parse\<close> produced, which a cast declares to be a list of questions. When the
  provider answers with the empty object, the text parses, the value has no \<open>length\<close>, the
  test is false, and each trigger emits a quiz event whose payload is that object: an
  event with no question. On the fifth turn of a session the handler sends this quiz to
  the client and stores it.
\<close>

theorem empty_object_quiz_emitted:
  "generateQuiz object_world (history (at_count 5)) = Fulfilled (JObject [])
   \<and> question_count (JObject []) = 0
   \<and> rule_onTurn object_world (at_count 5) = Fulfilled (Some (Quiz (JObject [])))
   \<and> fst (agent_onTurn object_world 3 None (at_count 5)) = Fulfilled (Some (Quiz (JObject [])))
   \<and> snd (saveTurnAndDispatchEvents (eventEngine object_world) object_world four_turns (heard ''u5'') ''[audio]'')
       = Fulfilled [ToClient (QuizMsg (JObject []))]
   \<and> quizzes (fst (saveTurnAndDispatchEvents (eventEngine object_world) object_world four_turns (heard ''u5'') ''[audio]''))
       = [(''s'', JObject [], 1001)]"
  by (simp add: object_world_generateQuiz object_world_rule object_world_agent object_world_fifth_turn
      question_count_def saveQuiz_def quizzes_persist_turn)
     code_simp

section \<open>Output that does not parse\<close>

lemma generateQuiz_unparseable:
  assumes "generateContent e (GENERATION_PROMPT (conversationText h)) = Fulfilled text"
    and "JSON_parse e (cleaned text) = None"
  shows "generateQuiz e h = Fulfilled (JArray [])"
  using assms by (simp add: generateQuiz_def)

lemma rule_no_event:
  "generateQuiz e (history ctx) = Fulfilled (JArray []) \<Longrightarrow> rule_onTurn e ctx = Fulfilled None"
  by (simp add: rule_onTurn_def length_is_zero_def)

lemma engine_no_event:
  "rule_onTurn e ctx = Fulfilled None \<Longrightarrow> processTurn (eventEngine e) ctx = Fulfilled []"
  by (simp add: processTurn_def processTurn_logged_def eventEngine_def register_def
      QuizRuleTrigger_def fst_collect emitted_def)

text \<open>
  Claim C6. When the text of the provider's response, trimmed and stripped of its
  markdown fence, is not JSON (\<open>JSON.parse\<close> throws), \<open>generateQuiz\<close> returns the empty list
  and does not fail; the rule trigger then emits no event, the engine returns none, and
  the handler that waited for the engine dispatches nothing. If the provider answers every
  generation prompt so, saving a turn and dispatching its events succeeds, sends nothing
  to the client and leaves the stored quizzes as they were.
\<close>

theorem unparseable_output_yields_no_quiz:
  "(generateContent e (GENERATION_PROMPT (conversationText (history ctx))) = Fulfilled text
      \<and> JSON_parse e (cleaned text) = None \<longrightarrow>
        generateQuiz e (history ctx) = Fulfilled (JArray [])
        \<and> rule_onTurn e ctx = Fulfilled None
        \<and> processTurn (eventEngine e) ctx = Fulfilled []
        \<and> saveTurn_resume e d sid (Awaiting (processTurn (eventEngine e) ctx)) = (d, Fulfilled []))
   \<and> ((\<forall>conversation. \<exists>text. generateContent e (GENERATION_PROMPT conversation) = Fulfilled text
          \<and> JSON_parse e (cleaned text) = None) \<longrightarrow>
        snd (saveTurnAndDispatchEvents (eventEngine e) e d c ai) = Fulfilled []
        \<and> quizzes (fst (saveTurnAndDispatchEvents (eventEngine e) e d c ai)) = quizzes d)"
proof (intro conjI impI)
  assume a: "generateContent e (GENERATION_PROMPT (conversationText (history ctx))) = Fulfilled text
      \<and> JSON_parse e (cleaned text) = None"
  then show g: "generateQuiz e (history ctx) = Fulfilled (JArray [])"
    by (simp add: generateQuiz_unparseable)
  then show r: "rule_onTurn e ctx = Fulfilled None" by (rule rule_no_event)
  then show p: "processTurn (eventEngine e) ctx = Fulfilled []" by (rule engine_no_event)
  then show "saveTurn_resume e d sid (Awaiting (processTurn (eventEngine e) ctx)) = (d, Fulfilled [])"
    by (simp add: saveTurn_resume_no_event)
next
  assume a: "\<forall>conversation. \<exists>text. generateContent e (GENERATION_PROMPT conversation) = Fulfilled text
      \<and> JSON_parse e (cleaned text) = None"
  have none: "processTurn (eventEngine e) ctx = Fulfilled []" for ctx
  proof -
    from a obtain reply where "generateContent e (GENERATION_PROMPT (conversationText (history ctx))) = Fulfilled reply"
      and "JSON_parse e (cleaned reply) = None" by blast
    then have "generateQuiz e (history ctx) = Fulfilled (JArray [])" by (rule generateQuiz_unparseable)
    then show ?thesis by (simp add: rule_no_event engine_no_event)
  qed
  have s: "saveTurnAndDispatchEvents (eventEngine e) e d c ai
      = (if records c then (persist_turn e d (the (conn_sessionId c)) (currentUserTranscript c) ai, Fulfilled [])
         else (d, Fulfilled []))"
  proof (cases "records c")
    case False
    then show ?thesis by (simp add: saveTurn_not_recorded)
  next
    case True
    then obtain sid where sid: "conn_sessionId c = Some sid"
      by (auto simp: records_def split: option.splits)
    from saveTurn_recorded [OF sid True] True sid show ?thesis
      by (simp add: none saveTurn_resume_no_event)
  qed
  show "snd (saveTurnAndDispatchEvents (eventEngine e) e d c ai) = Fulfilled []"
    by (simp add: s)
  show "quizzes (fst (saveTurnAndDispatchEvents (eventEngine e) e d c ai)) = quizzes d"
    by (simp add: s quizzes_persist_turn)
qed

lemma broken_world_parse: "JSON_parse broken_world (cleaned (Some (fenced ''not json''))) = None"
  by code_simp

lemma broken_world_answer:
  "generateContent broken_world (GENERATION_PROMPT conversation) = Fulfilled (Some (fenced ''not json''))"
  by (simp add: broken_world_def answering_def generation_prompt_start)

theorem unparseable_output_yields_no_quiz_witness:
  "generateQuiz broken_world (history (at_count 5)) = Fulfilled (JArray [])
   \<and> rule_onTurn broken_world (at_count 5) = Fulfilled None
   \<and> snd (saveTurnAndDispatchEvents (eventEngine broken_world) broken_world four_turns (heard ''u5'') ''[audio]'') = Fulfilled []
   \<and> quizzes (fst (saveTurnAndDispatchEvents (eventEngine broken_world) broken_world four_turns (heard ''u5'') ''[audio]'')) = quizzes four_turns"
proof -
  note t = unparseable_output_yields_no_quiz [of broken_world "at_count 5" "Some (fenced ''not json'')" four_turns "Some ''s''" "heard ''u5''" "''[audio]''"]
  have "\<forall>conversation. \<exists>reply. generateContent broken_world (GENERATION_PROMPT conversation) = Fulfilled reply
      \<and> JSON_parse broken_world (cleaned reply) = None"
    using broken_world_parse broken_world_answer by blast
  with t broken_world_parse broken_world_answer show ?thesis by blast
qed

section \<open>The energy detector\<close>

lemma length_samples_le: "length (samples_le buf) = length buf div 2"
  by (induction buf rule: samples_le.induct) simp_all

lemma nth_samples_le:
  "i < length buf div 2 \<Longrightarrow>
     samples_le buf ! i = sint (word_cat (buf ! (i * 2 + 1)) (buf ! (i * 2)) :: 16 word)"
proof (induction buf arbitrary: i rule: samples_le.induct)
  case (1 lo hi rest)
  show ?case
  proof (cases i)
    case 0
    then show ?thesis by simp
  next
    case (Suc j)
    with 1 have "samples_le rest ! j = sint (word_cat (rest ! (j * 2 + 1)) (rest ! (j * 2)) :: 16 word)"
      by simp
    with Suc show ?thesis by simp
  qed
qed simp_all

lemma readInt16LE_sample:
  assumes "i < length buf div 2"
  shows "readInt16LE buf (i * 2) = Some (samples_le buf ! i)"
proof -
  from assms have "i * 2 + 2 \<le> length buf" by arith
  then show ?thesis by (simp add: readInt16LE_def nth_samples_le [OF assms])
qed

lemma sum_squares_eq:
  "count' = length buf div 2 \<Longrightarrow> i \<le> count' \<Longrightarrow>
     sum_squares buf count' i acc = Some (acc + (\<Sum>x\<leftarrow>drop i (samples_le buf). x * x))"
proof (induction buf count' i acc rule: sum_squares.induct)
  case (1 buf count' i acc)
  show ?case
  proof (cases "i < count'")
    case False
    then have "sum_squares buf count' i acc = Some acc"
      by (subst sum_squares.simps) simp
    moreover from False 1 have "drop i (samples_le buf) = []"
      by (simp add: length_samples_le)
    ultimately show ?thesis by simp
  next
    case True
    with 1 have r: "readInt16LE buf (i * 2) = Some (samples_le buf ! i)"
      by (simp add: readInt16LE_sample)
    from True 1 have d: "drop i (samples_le buf) = samples_le buf ! i # drop (Suc i) (samples_le buf)"
      by (simp add: Cons_nth_drop_Suc length_samples_le)
    from True 1 have "sum_squares buf count' (i + 1) (acc + samples_le buf ! i * samples_le buf ! i)
        = Some (acc + samples_le buf ! i * samples_le buf ! i + (\<Sum>x\<leftarrow>drop (i + 1) (samples_le buf). x * x))"
      using "1.IH" [OF True r] by simp
    moreover have "sum_squares buf count' i acc
        = sum_squares buf count' (i + 1) (acc + samples_le buf ! i * samples_le buf ! i)"
      using True r by (subst sum_squares.simps) simp
    ultimately show ?thesis using d by simp
  qed
qed

lemma root_mean_square_nonneg: "0 \<le> root_mean_square xs"
proof -
  have "0 \<le> (\<Sum>x\<leftarrow>xs. x * x)" by (induction xs) simp_all
  then show ?thesis by (simp add: root_mean_square_def)
qed

lemma calcPCMRMS_eq:
  "calcPCMRMS e base64PCM = Some (root_mean_square (samples_le (Buffer_from_base64 e base64PCM)))"
proof -
  let ?buf = "Buffer_from_base64 e base64PCM"
  have e: "(samples_le ?buf = []) = (length ?buf div 2 = 0)"
    using length_samples_le [of ?buf] by (metis length_0_conv)
  show ?thesis
    using sum_squares_eq [of "length ?buf div 2" ?buf 0 0] e
    by (simp add: calcPCMRMS_def root_mean_square_def Let_def length_samples_le)
qed

text \<open>
  Claim C9. The energy detector never fails on a buffer, and what it returns is the root
  mean square of the buffer's 16-bit signed little-endian samples, which is not negative;
  on a buffer without a complete sample it returns 0. Numbers are real numbers here, not
  doubles.
\<close>

theorem calcPCMRMS_root_mean_square:
  "calcPCMRMS e base64PCM = Some (root_mean_square (samples_le (Buffer_from_base64 e base64PCM)))
   \<and> 0 \<le> root_mean_square (samples_le (Buffer_from_base64 e base64PCM))
   \<and> (length (Buffer_from_base64 e base64PCM) < 2 \<longrightarrow> calcPCMRMS e base64PCM = Some 0)"
  by (simp add: calcPCMRMS_eq root_mean_square_nonneg) (simp add: root_mean_square_def length_samples_le)

lemma quiz_world_decoder: "Buffer_from_base64 quiz_world = base64"
  by (simp add: quiz_world_def answering_def)

lemma one_byte: "base64 ''AA=='' = [0]"
  by code_simp

lemma two_samples: "samples_le (base64 ''kAFw/g=='') = [400, - 400]"
  by code_simp

lemma rms_two_samples: "root_mean_square [400, - 400] = 400"
  by (simp add: root_mean_square_def)

theorem calcPCMRMS_root_mean_square_witness:
  "length (Buffer_from_base64 quiz_world ''AA=='') < 2
   \<and> calcPCMRMS quiz_world ''AA=='' = Some 0
   \<and> calcPCMRMS quiz_world ''kAFw/g=='' = Some 400"
  using calcPCMRMS_root_mean_square [of quiz_world "''AA==''"]
    calcPCMRMS_root_mean_square [of quiz_world "''kAFw/g==''"]
  by (auto simp add: quiz_world_decoder one_byte two_samples rms_two_samples)

section \<open>Audio frames\<close>


lemma quiet_frame: "calcPCMRMS quiz_world ''AAA='' = Some 0"
proof -
  have "samples_le (base64 ''AAA='') = [0]" by code_simp
  then show ?thesis by (simp add: calcPCMRMS_eq quiz_world_decoder root_mean_square_def)
qed

lemma handle_audio_chunk_eq:
  assumes "geminiSession c"
  shows "handle_audio_chunk e c data =
     (let loud = (root_mean_square (samples_le (Buffer_from_base64 e data)) > SPEECH_THRESHOLD)
      in (c\<lparr>isActivityActive := isActivityActive c \<or> loud, silenceTimer := silenceTimer c \<or> loud\<rparr>,
          (if loud \<and> \<not> isActivityActive c then [ToProvider ActivityStart] else [])
          @ (if isActivityActive c \<or> loud then [ToProvider (Audio data)] else [])))"
  using assms by (simp add: handle_audio_chunk_def calcPCMRMS_eq Let_def)

text \<open>
  Claim C8. On a connection with an open provider session, an audio frame is forwarded to
  the provider exactly when the activity state is active once the frame's energy has been
  processed, and no frame is forwarded otherwise. In particular a frame arriving while
  active is forwarded whatever its energy; the state after the frame is active if it was
  before or the frame is above the threshold.
\<close>

theorem audio_frame_forwarding:
  assumes "geminiSession c"
  shows "(if isActivityActive (fst (handle_audio_chunk e c data))
          then ToProvider (Audio data) \<in> set (snd (handle_audio_chunk e c data))
          else \<forall>frame. ToProvider (Audio frame) \<notin> set (snd (handle_audio_chunk e c data)))
       \<and> (isActivityActive c \<longrightarrow> ToProvider (Audio data) \<in> set (snd (handle_audio_chunk e c data)))
       \<and> isActivityActive (fst (handle_audio_chunk e c data))
           = (isActivityActive c \<or> (\<exists>energy. calcPCMRMS e data = Some energy \<and> energy > SPEECH_THRESHOLD))"
  by (simp add: handle_audio_chunk_eq [OF assms] Let_def calcPCMRMS_eq)

theorem audio_frame_forwarding_witness:
  "geminiSession (connected\<lparr>isActivityActive := True\<rparr>)
   \<and> ToProvider (Audio ''AAA='') \<in> set (snd (handle_audio_chunk quiz_world (connected\<lparr>isActivityActive := True\<rparr>) ''AAA=''))
   \<and> ToProvider (Audio ''AAA='') \<notin> set (snd (handle_audio_chunk quiz_world connected ''AAA=''))"
proof -
  have g: "geminiSession (connected\<lparr>isActivityActive := True\<rparr>)" "geminiSession connected"
    by (simp_all add: connected_def)
  have a: "isActivityActive (connected\<lparr>isActivityActive := True\<rparr>)" by simp
  have i: "\<not> isActivityActive connected" by (simp add: connected_def)
  have q: "\<not> (\<exists>energy. calcPCMRMS quiz_world ''AAA='' = Some energy \<and> energy > SPEECH_THRESHOLD)"
    by (simp add: quiet_frame SPEECH_THRESHOLD_def)
  from audio_frame_forwarding [OF g(1), of quiz_world "''AAA=''"] a
  have "ToProvider (Audio ''AAA='') \<in> set (snd (handle_audio_chunk quiz_world (connected\<lparr>isActivityActive := True\<rparr>) ''AAA=''))"
    by blast
  moreover from audio_frame_forwarding [OF g(2), of quiz_world "''AAA=''"] i q
  have "ToProvider (Audio ''AAA='') \<notin> set (snd (handle_audio_chunk quiz_world connected ''AAA=''))"
    by (metis (full_types))
  ultimately show ?thesis using g by blast
qed

section \<open>Activity signals\<close>

















lemma first_turn:
  assumes "conn_sessionId c = Some ''s''" and "currentUserTranscript c = ''hello''"
  shows "saveTurn_begin (eventEngine quiz_world) quiz_world empty_db c ''[audio]''
     = (persist_turn quiz_world empty_db ''s'' ''hello'' ''[audio]'', Awaiting (Fulfilled []))"
proof -
  have "processTurn (eventEngine quiz_world)
      (turn_context (persist_turn quiz_world empty_db ''s'' ''hello'' ''[audio]'') ''s'' ''hello'' ''[audio]'')
      = Fulfilled []"
    by code_simp
  with assms show ?thesis by (simp add: saveTurn_begin_def)
qed



section \<open>The count handed to the triggers\<close>

lemma count_addMessage:
  "getUserMessageCount (addMessage d sid' r c now) sid
     = getUserMessageCount d sid + (if sid' = sid \<and> r = User then 1 else 0)"
  by (simp add: getUserMessageCount_def addMessage_def)

lemma count_persist_turn:
  "getUserMessageCount (persist_turn e d sid u a) sid = getUserMessageCount d sid + 1"
  by (simp add: persist_turn_def count_addMessage)

lemma count_dispatch_all:
  "getUserMessageCount (fst (dispatch_all e d sid' events)) sid = getUserMessageCount d sid"
  by (simp add: dispatch_all_eq getUserMessageCount_def)

lemma count_begin:
  assumes "conn_sessionId c = Some sid"
  shows "getUserMessageCount (fst (saveTurn_begin engine e d c ai)) sid
     = getUserMessageCount d sid + (if records c then 1 else 0)"
proof (cases "records c")
  case True
  then show ?thesis
    by (simp add: saveTurn_begin_recorded [OF assms True] count_persist_turn)
next
  case False
  then show ?thesis by (simp add: saveTurn_begin_not_recorded)
qed

lemma count_resume:
  "getUserMessageCount (fst (saveTurn_resume e d sid' t)) sid = getUserMessageCount d sid"
  by (auto simp: saveTurn_resume_def case_prod_beta count_dispatch_all
      split: waiting_turn.splits promise.splits option.splits)

lemma do_step_session:
  "conn_sessionId (snd (fst (do_step (d, c) es))) = conn_sessionId c"
proof -
  obtain e s where es: "es = (e, s)" by (cases es)
  show ?thesis
    by (cases s)
       (auto simp: es do_step_def handle_audio_chunk_def silence_timeout_def handle_force_commit_def
          onTranscript_def onAudioChunk_def onAudioChunk_resumes_def Let_def
          split: option.splits prod.splits if_splits promise.splits)
qed

lemma do_step_count:
  assumes "conn_sessionId c = Some sid"
  shows "getUserMessageCount (fst (fst (do_step (d, c) es))) sid
     = getUserMessageCount d sid + (if turn_completion (snd es) \<and> records c then 1 else 0)"
proof -
  obtain e s where es: "es = (e, s)" by (cases es)
  show ?thesis
  proof (cases s)
    case (ProviderAudio b m final)
    show ?thesis
    proof (cases final)
      case True
      with count_begin [OF assms, of "eventEngine e" e d "''[audio]''"] show ?thesis
        by (simp add: es ProviderAudio do_step_def onAudioChunk_def turn_completion_def case_prod_beta)
    next
      case False
      then show ?thesis
        by (simp add: es ProviderAudio do_step_def onAudioChunk_def turn_completion_def)
    qed
  next
    case (TurnHandlerResumes k)
    obtain d' r where r: "saveTurn_resume e d (conn_sessionId c) (waiting c ! k) = (d', r)"
      by (cases "saveTurn_resume e d (conn_sessionId c) (waiting c ! k)")
    with count_resume [of e d "conn_sessionId c" "waiting c ! k" sid]
    have "getUserMessageCount d' sid = getUserMessageCount d sid" by simp
    with r show ?thesis
      by (cases r)
         (simp_all add: es TurnHandlerResumes do_step_def onAudioChunk_resumes_def turn_completion_def Let_def)
  qed (simp_all add: es do_step_def turn_completion_def case_prod_beta)
qed

lemma fst_run_Cons: "fst (run w (es # steps)) = fst (run (fst (do_step w es)) steps)"
  by (simp add: case_prod_beta)

lemma run_session: "conn_sessionId (snd (fst (run (d, c) steps))) = conn_sessionId c"
proof (induction steps arbitrary: d c)
  case Nil
  show ?case by simp
next
  case (Cons es steps)
  obtain d1 c1 where w1: "fst (do_step (d, c) es) = (d1, c1)" by (cases "fst (do_step (d, c) es)")
  with Cons.IH [of d1 c1] do_step_session [of d c es] show ?case
    by (simp add: fst_run_Cons del: run.simps)
qed

lemma run_count:
  assumes "conn_sessionId c = Some sid"
  shows "getUserMessageCount (fst (fst (run (d, c) steps))) sid
     = getUserMessageCount d sid + int (recorded_turns (d, c) steps)"
  using assms
proof (induction steps arbitrary: d c)
  case Nil
  show ?case by simp
next
  case (Cons es steps)
  obtain d1 c1 where w1: "fst (do_step (d, c) es) = (d1, c1)" by (cases "fst (do_step (d, c) es)")
  have s1: "conn_sessionId c1 = Some sid"
    using do_step_session [of d c es] w1 Cons.prems by simp
  have c1: "getUserMessageCount d1 sid
      = getUserMessageCount d sid + (if turn_completion (snd es) \<and> records c then 1 else 0)"
    using do_step_count [OF Cons.prems, of d es] w1 by simp
  have "fst (run (d, c) (es # steps)) = fst (run (d1, c1) steps)"
    using w1 by (simp add: fst_run_Cons del: run.simps)
  with Cons.IH [OF s1, of d1] c1 w1 show ?case by simp
qed

text \<open>
  Claim C7. Take a connection with a session that has no user message in the store, and
  any run of it, with the handlers of turn completions resuming whenever they do; let a
  turn then complete with an utterance remembered. The handler persists the turn, reads
  the count back and hands the context to \<open>processTurn\<close>, all before it waits: the count in
  that context is the number of turns the run recorded plus one for this turn, which is
  the number of user messages stored for the session including the one just appended.
\<close>

theorem turn_context_counts_turns:
  assumes "conn_sessionId c = Some sid"
    and "getUserMessageCount d sid = 0"
    and "run (d, c) steps = ((d', c'), out)"
    and "records c'"
  shows "saveTurn_begin engine e d' c' ai
       = (persist_turn e d' sid (currentUserTranscript c') ai,
          Awaiting (processTurn engine (turn_context (persist_turn e d' sid (currentUserTranscript c') ai) sid
              (currentUserTranscript c') ai)))
     \<and> saveTurnAndDispatchEvents engine e d' c' ai
       = saveTurn_resume e (persist_turn e d' sid (currentUserTranscript c') ai) (Some sid)
           (Awaiting (processTurn engine (turn_context (persist_turn e d' sid (currentUserTranscript c') ai) sid
              (currentUserTranscript c') ai)))
     \<and> messageCount (turn_context (persist_turn e d' sid (currentUserTranscript c') ai) sid
              (currentUserTranscript c') ai)
       = int (recorded_turns (d, c) steps) + 1
     \<and> messageCount (turn_context (persist_turn e d' sid (currentUserTranscript c') ai) sid
              (currentUserTranscript c') ai)
       = getUserMessageCount d' sid + 1"
proof -
  have s: "conn_sessionId c' = Some sid"
    using run_session [of d c steps] assms(1,3) by simp
  have k: "getUserMessageCount d' sid = int (recorded_turns (d, c) steps)"
    using run_count [OF assms(1), of d steps] assms(2,3) by simp
  show ?thesis
    using saveTurn_recorded [OF s assms(4)] saveTurn_begin_recorded [OF s assms(4)] k
    by (simp add: turn_context_def count_persist_turn)
qed

lemma one_turn_run:
  "run (empty_db, connected)
     [(quiz_world, ProviderTranscript ''hello''),
      (quiz_world, ProviderAudio [] ''audio/pcm;rate=24000'' True),
      (quiz_world, TurnHandlerResumes 0),
      (quiz_world, ProviderTranscript ''again'')]
   = ((persist_turn quiz_world empty_db ''s'' ''hello'' ''[audio]'', heard ''again''),
      [ToClient (Transcript ''hello''), ToClient (AvatarState Thinking),
       ToClient (AiAudio [] ''audio/pcm;rate=24000'' True), ToClient (AvatarState Listening),
       ToClient (Transcript ''again''), ToClient (AvatarState Thinking)])"
  by (simp add: do_step_def onTranscript_def onAudioChunk_def onAudioChunk_resumes_def
      saveTurn_resume_def connected_def heard_def first_turn)

lemma one_turn_recorded:
  "recorded_turns (empty_db, connected)
     [(quiz_world, ProviderTranscript ''hello''),
      (quiz_world, ProviderAudio [] ''audio/pcm;rate=24000'' True),
      (quiz_world, TurnHandlerResumes 0),
      (quiz_world, ProviderTranscript ''again'')] = 1"
  by (simp add: do_step_def onTranscript_def onAudioChunk_def onAudioChunk_resumes_def
      saveTurn_resume_def turn_completion_def records_def connected_def first_turn)

theorem turn_context_counts_turns_witness:
  "conn_sessionId connected = Some ''s''
   \<and> getUserMessageCount empty_db ''s'' = 0
   \<and> records (heard ''again'')
   \<and> messageCount (turn_context
         (persist_turn quiz_world (persist_turn quiz_world empty_db ''s'' ''hello'' ''[audio]'') ''s''
            (currentUserTranscript (heard ''again'')) ''[audio]'')
         ''s'' (currentUserTranscript (heard ''again'')) ''[audio]'') = 2"
proof -
  have 1: "conn_sessionId connected = Some ''s''" by (simp add: connected_def)
  have 2: "getUserMessageCount empty_db ''s'' = 0" by (simp add: getUserMessageCount_def empty_db_def)
  have 4: "records (heard ''again'')" by (simp add: records_def heard_def connected_def)
  from turn_context_counts_turns [OF 1 2 one_turn_run 4, of "eventEngine quiz_world" quiz_world "''[audio]''"]
  show ?thesis unfolding one_turn_recorded using 1 2 4 by simp
qed

end
